theory Spec2Isabelle
  imports Complex_Main "HOL-Library.Multiset"
begin

section \<open>Webhook documents\<close>

text \<open>
  A document of the \<open>github_webhooks\<close> collection, as \<open>Dashboard.jsx\<close> reads it.
  Every field the component reads through \<open>?.\<close> or \<open>||\<close> is optional: \<open>None\<close> is
  JavaScript's \<open>undefined\<close>. A nested object may be present while the field read from
  it is absent (\<open>repository = Some \<lparr>name = None\<rparr>\<close>).

  \<open>receivedAt\<close> holds the time value, in milliseconds since the epoch, of
  \<open>new Date(item.receivedAt)\<close>; \<open>None\<close> is the time value \<open>NaN\<close> of an Invalid Date.
\<close>

record repository_doc =
  name :: "string option"

record sender_doc =
  login :: "string option"

record pusher_doc =
  name :: "string option"

record user_doc =
  login :: "string option"

record pull_request_doc =
  user :: "user_doc option"

record webhook =
  id :: string
  receivedAt :: "int option"
  githubEvent :: "string option"
  repository :: "repository_doc option"
  sender :: "sender_doc option"
  pusher :: "pusher_doc option"
  pull_request :: "pull_request_doc option"

datatype js_error = TypeError

text \<open>\<open>item.repository?.name\<close>: \<open>undefined\<close> when \<open>repository\<close> is absent, else its \<open>name\<close>.\<close>

definition repository_name :: "webhook \<Rightarrow> string option" where
  "repository_name item =
     (case repository item of None \<Rightarrow> None | Some r \<Rightarrow> repository_doc.name r)"

definition sender_login :: "webhook \<Rightarrow> string option" where
  "sender_login item =
     (case sender item of None \<Rightarrow> None | Some s \<Rightarrow> sender_doc.login s)"

definition pusher_name :: "webhook \<Rightarrow> string option" where
  "pusher_name item =
     (case pusher item of None \<Rightarrow> None | Some p \<Rightarrow> pusher_doc.name p)"

definition pull_request_user_login :: "webhook \<Rightarrow> string option" where
  "pull_request_user_login item =
     (case pull_request item of None \<Rightarrow> None
      | Some pr \<Rightarrow> (case user pr of None \<Rightarrow> None | Some u \<Rightarrow> user_doc.login u))"

text \<open>\<open>Boolean(v)\<close> on a string or \<open>undefined\<close>: the empty string is falsy too.\<close>

definition Boolean :: "string option \<Rightarrow> bool" where
  "Boolean v = (case v of None \<Rightarrow> False | Some s \<Rightarrow> s \<noteq> [])"

text \<open>\<open>a || b\<close> on strings or \<open>undefined\<close>, and \<open>a || 'literal'\<close>.\<close>

definition or_else :: "string option \<Rightarrow> string option \<Rightarrow> string option" where
  "or_else a b = (if Boolean a then a else b)"

definition or_literal :: "string option \<Rightarrow> string \<Rightarrow> string" where
  "or_literal a d = (case a of None \<Rightarrow> d | Some s \<Rightarrow> if s = [] then d else s)"

section \<open>Dates\<close>

text \<open>
  A \<open>Date\<close> object is its time value: \<open>Some t\<close> with \<open>t\<close> in milliseconds since the
  epoch, or \<open>None\<close> for an Invalid Date. The string of \<open>toLocaleDateString()\<close> is
  represented by the calendar day it names: the number of the local day, counted from
  the epoch. The clock reads of one rendering (\<open>new Date()\<close> in lines 78, 79, 137 and
  181) are one instant \<open>now\<close>.
\<close>

type_synonym date = "int option"

datatype date_string = Calendar_Date int | Invalid_Date

definition msPerDay :: int where
  "msPerDay = 86400000"

definition msPerHour :: int where
  "msPerHour = 3600000"

text \<open>
  The local time zone of the browser: the offset of standard time from UTC, in
  milliseconds, and the changes of the clock in ascending order. A change \<open>(u, a)\<close>
  says that from the UTC instant \<open>u\<close> on the clocks are \<open>a\<close> milliseconds ahead of
  standard time (taken modulo a day; 0 is the return to standard time).
\<close>

record zone =
  standard :: int
  changes :: "(int \<times> nat) list"

definition advance :: "nat \<Rightarrow> int" where
  "advance a = int a mod msPerDay"

text \<open>The offset in force at a UTC instant (\<open>LocalTZA(t, true)\<close> of ECMA-262).\<close>

fun offset_from :: "int \<Rightarrow> int \<Rightarrow> (int \<times> nat) list \<Rightarrow> int \<Rightarrow> int" where
  "offset_from std off [] t = off"
| "offset_from std off ((u, a) # cs) t =
     (if u \<le> t then offset_from std (std + advance a) cs t else off)"

text \<open>
  The offset by which a local time is read (\<open>LocalTZA(t, false)\<close>): a local time that a
  change skips or repeats is read with the offset before the change.
\<close>

fun local_offset_from :: "int \<Rightarrow> int \<Rightarrow> (int \<times> nat) list \<Rightarrow> int \<Rightarrow> int" where
  "local_offset_from std off [] lt = off"
| "local_offset_from std off ((u, a) # cs) lt =
     (if u + max off (std + advance a) \<le> lt
      then local_offset_from std (std + advance a) cs lt else off)"

definition LocalTime :: "zone \<Rightarrow> int \<Rightarrow> int" where
  "LocalTime tz t = t + offset_from (standard tz) (standard tz) (changes tz) t"

definition UTC :: "zone \<Rightarrow> int \<Rightarrow> int" where
  "UTC tz lt = lt - local_offset_from (standard tz) (standard tz) (changes tz) lt"

definition local_day :: "zone \<Rightarrow> int \<Rightarrow> int" where
  "local_day tz t = LocalTime tz t div msPerDay"

text \<open>\<open>d.setHours(0, 0, 0, 0)\<close>: the local day of \<open>d\<close> at time 0, read back as an instant.\<close>

definition setHours0 :: "zone \<Rightarrow> date \<Rightarrow> date" where
  "setHours0 tz d = map_option (\<lambda>t. UTC tz (local_day tz t * msPerDay)) d"

text \<open>
  \<open>d.setDate(d.getDate() + n)\<close>: the local date moves by \<open>n\<close> days and the local time
  of day stays, and the result is read back as an instant.
\<close>

definition setDate_plus :: "zone \<Rightarrow> int \<Rightarrow> int \<Rightarrow> int" where
  "setDate_plus tz n t = UTC tz (LocalTime tz t + n * msPerDay)"

definition toLocaleDateString :: "zone \<Rightarrow> date \<Rightarrow> date_string" where
  "toLocaleDateString tz d =
     (case d of None \<Rightarrow> Invalid_Date | Some t \<Rightarrow> Calendar_Date (local_day tz t))"

text \<open>All offsets of a zone lie within one day, so the next local day is a later instant.\<close>

lemma offset_from_range:
  "std \<le> off \<Longrightarrow> off < std + msPerDay \<Longrightarrow>
     std \<le> offset_from std off cs t \<and> offset_from std off cs t < std + msPerDay"
  by (induction std off cs t rule: offset_from.induct) (auto simp: advance_def msPerDay_def)

lemma local_offset_from_range:
  "std \<le> off \<Longrightarrow> off < std + msPerDay \<Longrightarrow>
     std \<le> local_offset_from std off cs lt \<and> local_offset_from std off cs lt < std + msPerDay"
  by (induction std off cs lt rule: local_offset_from.induct)
     (auto simp: advance_def msPerDay_def)

lemma setDate_plus_later: "t < setDate_plus tz 1 t"
  using offset_from_range [of "standard tz" "standard tz" "changes tz" t]
        local_offset_from_range [of "standard tz" "standard tz" "changes tz"
          "LocalTime tz t + msPerDay"]
  by (simp add: setDate_plus_def UTC_def LocalTime_def msPerDay_def)

text \<open>Relational operators on dates compare time values; with \<open>NaN\<close> they are false.\<close>

definition date_ge :: "date \<Rightarrow> date \<Rightarrow> bool" where
  "date_ge a b = (case (a, b) of (Some x, Some y) \<Rightarrow> x \<ge> y | _ \<Rightarrow> False)"

definition date_lt :: "date \<Rightarrow> date \<Rightarrow> bool" where
  "date_lt a b = (case (a, b) of (Some x, Some y) \<Rightarrow> x < y | _ \<Rightarrow> False)"

definition date_gt :: "date \<Rightarrow> date \<Rightarrow> bool" where
  "date_gt a b = (case (a, b) of (Some x, Some y) \<Rightarrow> x > y | _ \<Rightarrow> False)"

section \<open>Plain objects used as dictionaries\<close>

text \<open>
  The own properties of an object, in creation order. Assigning to an existing key
  keeps its place, assigning to a new key appends it.
\<close>

fun obj_set :: "('k \<times> 'v) list \<Rightarrow> 'k \<Rightarrow> 'v \<Rightarrow> ('k \<times> 'v) list" where
  "obj_set [] k v = [(k, v)]"
| "obj_set ((k', v') # ps) k v =
     (if k' = k then (k, v) # ps else (k', v') # obj_set ps k v)"

text \<open>
  The count objects \<open>eventTypes\<close>, \<open>repoActivity\<close>, \<open>teamActivity\<close> and \<open>userActivity\<close>
  are created by \<open>{}\<close>, so a key that is not an own property is looked up in
  \<open>Object.prototype\<close>. A stored value is a number or, after an inherited member has been
  read, a string.
\<close>

datatype jsval = JNum nat | JStr string

definition Object_prototype_keys :: "string list" where
  "Object_prototype_keys =
     [''constructor'', ''__defineGetter__'', ''__defineSetter__'', ''hasOwnProperty'',
      ''__lookupGetter__'', ''__lookupSetter__'', ''isPrototypeOf'',
      ''propertyIsEnumerable'', ''toString'', ''valueOf'', ''__proto__'',
      ''toLocaleString'']"

datatype property = Own jsval | Inherited | Absent

definition get_property :: "(string \<times> jsval) list \<Rightarrow> string \<Rightarrow> property" where
  "get_property obj k =
     (case map_of obj k of
        Some v \<Rightarrow> Own v
      | None \<Rightarrow> if k \<in> set Object_prototype_keys then Inherited else Absent)"

text \<open>
  The string an inherited member of \<open>Object.prototype\<close> converts to (as V8 prints a
  native function; \<open>__proto__\<close> reads as \<open>Object.prototype\<close> itself).
\<close>

definition inherited_text :: "string \<Rightarrow> string" where
  "inherited_text k =
     (if k = ''__proto__'' then ''[object Object]''
      else ''function '' @ (if k = ''constructor'' then ''Object'' else k)
           @ ''() { [native code] }'')"

text \<open>\<open>(obj[k] || 0) + 1\<close>: a number is incremented, a string has \<open>"1"\<close> appended.\<close>

definition or_zero_plus_one :: "string \<Rightarrow> property \<Rightarrow> jsval" where
  "or_zero_plus_one k p =
     (case p of
        Own (JNum n) \<Rightarrow> JNum (n + 1)
      | Own (JStr s) \<Rightarrow> if s = [] then JNum 1 else JStr (s @ ''1'')
      | Inherited \<Rightarrow> JStr (inherited_text k @ ''1'')
      | Absent \<Rightarrow> JNum 1)"

text \<open>
  \<open>obj[k] = v\<close> with a primitive \<open>v\<close>: the inherited setter of \<open>__proto__\<close> ignores it,
  any other key becomes or stays an own property.
\<close>

definition set_property ::
  "(string \<times> jsval) list \<Rightarrow> string \<Rightarrow> jsval \<Rightarrow> (string \<times> jsval) list" where
  "set_property obj k v = (if k = ''__proto__'' then obj else obj_set obj k v)"

definition tally :: "(string \<times> jsval) list \<Rightarrow> string \<Rightarrow> (string \<times> jsval) list" where
  "tally obj k = set_property obj k (or_zero_plus_one k (get_property obj k))"

text \<open>\<open>items.forEach(item => { obj[label(item)] = (obj[label(item)] || 0) + 1 })\<close>\<close>

definition count_by :: "('a \<Rightarrow> string) \<Rightarrow> 'a list \<Rightarrow> (string \<times> jsval) list" where
  "count_by label items = fold (\<lambda>item obj. tally obj (label item)) items []"

text \<open>
  \<open>Object.keys\<close> and \<open>Object.entries\<close> list the keys that are array indices first, in
  ascending numeric order, then the other keys in creation order.
\<close>

definition is_digit :: "char \<Rightarrow> bool" where
  "is_digit c = (c \<in> set ''0123456789'')"

definition digits_value :: "string \<Rightarrow> int" where
  "digits_value s = foldl (\<lambda>a c. 10 * a + (of_char c - 48)) 0 s"

definition is_array_index :: "string \<Rightarrow> bool" where
  "is_array_index s =
     (case s of
        [] \<Rightarrow> False
      | c # cs \<Rightarrow>
          list_all is_digit s \<and> (if c = CHR ''0'' then cs = [] else True)
          \<and> digits_value s < 2 ^ 32 - 1)"

definition Object_entries :: "(string \<times> 'v) list \<Rightarrow> (string \<times> 'v) list" where
  "Object_entries obj =
     sort_key (\<lambda>e. digits_value (fst e)) (filter (\<lambda>e. is_array_index (fst e)) obj)
     @ filter (\<lambda>e. \<not> is_array_index (fst e)) obj"

definition Object_keys :: "(string \<times> 'v) list \<Rightarrow> string list" where
  "Object_keys obj = map fst (Object_entries obj)"

section \<open>Arrays and sets\<close>

text \<open>
  \<open>Array.prototype.slice(start, end)\<close> with integer arguments: a negative index counts
  from the end, and both are clipped to the array.
\<close>

definition slice :: "'a list \<Rightarrow> int \<Rightarrow> int \<Rightarrow> 'a list" where
  "slice xs start end =
     (let len = int (length xs);
          k = (if start < 0 then max (len + start) 0 else min start len);
          final = (if end < 0 then max (len + end) 0 else min end len)
      in take (nat (final - k)) (drop (nat k) xs))"

text \<open>\<open>new Set(xs)\<close> keeps the first occurrence of each value, in insertion order.\<close>

definition Set_add :: "'a \<Rightarrow> 'a list \<Rightarrow> 'a list" where
  "Set_add x s = (if x \<in> set s then s else s @ [x])"

definition new_Set :: "'a list \<Rightarrow> 'a list" where
  "new_Set xs = fold Set_add xs []"

text \<open>
  \<open>Array.prototype.sort(compare)\<close> is stable. A comparator result of \<open>NaN\<close> (\<open>None\<close>)
  counts as 0. The model inserts each element, from the last to the first, before the
  first element it does not follow; for a consistent comparator every stable sort
  returns this list. Where results of \<open>NaN\<close> make the comparator inconsistent,
  ECMA-262 leaves the order to the engine: there the list of the model is one of the
  permitted orders and need not be the one an engine returns.
\<close>

fun insert_by :: "('a \<Rightarrow> 'a \<Rightarrow> int option) \<Rightarrow> 'a \<Rightarrow> 'a list \<Rightarrow> 'a list" where
  "insert_by compare x [] = [x]"
| "insert_by compare x (y # ys) =
     (if (case compare x y of None \<Rightarrow> 0 | Some v \<Rightarrow> v) \<le> 0 then x # y # ys
      else y # insert_by compare x ys)"

definition sort_by :: "('a \<Rightarrow> 'a \<Rightarrow> int option) \<Rightarrow> 'a list \<Rightarrow> 'a list" where
  "sort_by compare xs = foldr (insert_by compare) xs []"

text \<open>
  \<open>ToNumber\<close> of a stored value. The strings that \<open>tally\<close> stores start with the text of
  an inherited member and are no numeric literals, so they convert to \<open>NaN\<close>.
\<close>

definition to_number :: "jsval \<Rightarrow> int option" where
  "to_number v = (case v of JNum n \<Rightarrow> Some (int n) | JStr s \<Rightarrow> None)"

text \<open>\<open>(a, b) => b[1] - a[1]\<close>\<close>

definition by_count_desc :: "string \<times> jsval \<Rightarrow> string \<times> jsval \<Rightarrow> int option" where
  "by_count_desc a b =
     (case (to_number (snd b), to_number (snd a)) of
        (Some y, Some x) \<Rightarrow> Some (y - x)
      | _ \<Rightarrow> None)"

section \<open>The component state\<close>

text \<open>
  The \<open>useState\<close> cells of \<open>Dashboard\<close>. Each setter replaces its own cell and leaves
  the others as they are; the two \<open>select\<close> elements call \<open>setTimeRange\<close> and
  \<open>setSelectedRepo\<close> and nothing else.
\<close>

record dashboard_state =
  webhookData :: "webhook list"
  timeRange :: string
  selectedRepo :: string
  currentPage :: int

definition rowsPerPage :: int where
  "rowsPerPage = 10"

definition initial_state :: dashboard_state where
  "initial_state =
     \<lparr>webhookData = [], timeRange = ''7d'', selectedRepo = ''all'', currentPage = 1\<rparr>"

definition setWebhookData :: "webhook list \<Rightarrow> dashboard_state \<Rightarrow> dashboard_state" where
  "setWebhookData d s = s\<lparr>webhookData := d\<rparr>"

definition setTimeRange :: "string \<Rightarrow> dashboard_state \<Rightarrow> dashboard_state" where
  "setTimeRange v s = s\<lparr>timeRange := v\<rparr>"

definition setSelectedRepo :: "string \<Rightarrow> dashboard_state \<Rightarrow> dashboard_state" where
  "setSelectedRepo v s = s\<lparr>selectedRepo := v\<rparr>"

section \<open>processData\<close>

text \<open>All functions below take the zone \<open>tz\<close> and the instant \<open>now\<close> of the rendering.\<close>

definition filteredData_of :: "dashboard_state \<Rightarrow> webhook list" where
  "filteredData_of s =
     (if selectedRepo s = ''all'' then webhookData s
      else filter (\<lambda>item. repository_name item = Some (selectedRepo s)) (webhookData s))"

text \<open>
  \<open>cutoffDate.setDate(now.getDate() - k)\<close>, on a \<open>cutoffDate\<close> that starts as the
  instant \<open>now\<close>.
\<close>

definition cutoffDate :: "zone \<Rightarrow> int \<Rightarrow> string \<Rightarrow> date" where
  "cutoffDate tz now tr =
     (if tr = ''24h'' then Some (setDate_plus tz (- 1) now)
      else if tr = ''7d'' then Some (setDate_plus tz (- 7) now)
      else if tr = ''30d'' then Some (setDate_plus tz (- 30) now)
      else Some 0)"

definition timeFilteredData_of :: "zone \<Rightarrow> int \<Rightarrow> dashboard_state \<Rightarrow> webhook list" where
  "timeFilteredData_of tz now s =
     filter (\<lambda>item. date_ge (receivedAt item) (cutoffDate tz now (timeRange s)))
       (filteredData_of s)"

definition eventType_of :: "webhook \<Rightarrow> string" where
  "eventType_of item = or_literal (githubEvent item) ''Unknown''"

definition repoName_of :: "webhook \<Rightarrow> string" where
  "repoName_of item = or_literal (repository_name item) ''Unknown''"

definition teamName_of :: "webhook \<Rightarrow> string" where
  "teamName_of item = drop 5 (repoName_of item)"

definition username_of :: "webhook \<Rightarrow> string" where
  "username_of item =
     or_literal
       (or_else (or_else (sender_login item) (pusher_name item))
          (pull_request_user_login item))
       ''Unknown''"

text \<open>
  The pass over the filtered events that tallies them by local day and tracks
  \<open>minDate\<close> and \<open>maxDate\<close> (\<open>None\<close> is \<open>null\<close>; a \<open>Date\<close> object is truthy).
  The keys of \<open>dailyActivity\<close> and \<open>filledDailyActivity\<close> are date strings: none of
  them names a member of \<open>Object.prototype\<close> or is an array index, so these two objects
  are their own properties in creation order.
\<close>

definition or_zero :: "nat option \<Rightarrow> nat" where
  "or_zero v = (case v of None \<Rightarrow> 0 | Some n \<Rightarrow> n)"

definition daily_step ::
  "zone \<Rightarrow> webhook \<Rightarrow> (date_string \<times> nat) list \<times> date option \<times> date option
     \<Rightarrow> (date_string \<times> nat) list \<times> date option \<times> date option" where
  "daily_step tz item st =
     (case st of (dailyActivity, minDate, maxDate) \<Rightarrow>
        let dateObj = setHours0 tz (receivedAt item);
            date = toLocaleDateString tz dateObj
        in (obj_set dailyActivity date (or_zero (map_of dailyActivity date) + 1),
            (case minDate of None \<Rightarrow> Some dateObj
             | Some m \<Rightarrow> if date_lt dateObj m then Some dateObj else Some m),
            (case maxDate of None \<Rightarrow> Some dateObj
             | Some m \<Rightarrow> if date_gt dateObj m then Some dateObj else Some m)))"

definition daily_pass ::
  "zone \<Rightarrow> webhook list \<Rightarrow> (date_string \<times> nat) list \<times> date option \<times> date option" where
  "daily_pass tz items = fold (daily_step tz) items ([], None, None)"

text \<open>The \<open>while (current <= endDate)\<close> loop that fills in the days without events.\<close>

function fill_loop ::
  "zone \<Rightarrow> (date_string \<times> nat) list \<Rightarrow> int \<Rightarrow> int \<Rightarrow> (date_string \<times> nat) list
     \<Rightarrow> (date_string \<times> nat) list" where
  "fill_loop tz dailyActivity current endDate filled =
     (if current \<le> endDate then
        (let dateStr = toLocaleDateString tz (Some current)
         in fill_loop tz dailyActivity (setDate_plus tz 1 current) endDate
              (obj_set filled dateStr (or_zero (map_of dailyActivity dateStr))))
      else filled)"
  by pat_completeness auto
termination
proof (relation "measure (\<lambda>(tz, d, current, endDate, filled). nat (endDate - current + 1))")
  show "wf (measure (\<lambda>(tz, d, current, endDate, filled). nat (endDate - current + 1)))"
    by simp
next
  fix tz :: zone and dailyActivity :: "(date_string \<times> nat) list"
    and current endDate :: int and filled :: "(date_string \<times> nat) list" and x :: date_string
  assume "current \<le> endDate"
  then show "((tz, dailyActivity, setDate_plus tz 1 current, endDate,
                 obj_set filled x (or_zero (map_of dailyActivity x))),
              (tz, dailyActivity, current, endDate, filled))
             \<in> measure (\<lambda>(tz, d, current, endDate, filled). nat (endDate - current + 1))"
    using setDate_plus_later [of current tz] by simp
qed

declare fill_loop.simps [simp del]

definition filledDailyActivity_of ::
  "zone \<Rightarrow> int \<Rightarrow> (date_string \<times> nat) list \<times> date option \<times> date option
     \<Rightarrow> (date_string \<times> nat) list" where
  "filledDailyActivity_of tz now st =
     (case st of
        (dailyActivity, Some minDate, Some maxDate) \<Rightarrow>
          (let today = setHours0 tz (Some now);
               endDate = (if date_gt maxDate today then maxDate else today)
           in (case (minDate, endDate) of
                 (Some current, Some e) \<Rightarrow> fill_loop tz dailyActivity current e []
               | _ \<Rightarrow> []))
      | _ \<Rightarrow> [])"

record processed =
  eventTypes :: "(string \<times> jsval) list"
  repoActivity :: "(string \<times> jsval) list"
  teamActivity :: "(string \<times> jsval) list"
  userActivity :: "(string \<times> jsval) list"
  dailyActivity :: "(date_string \<times> nat) list"
  totalEvents :: nat
  uniqueRepos :: nat
  uniqueTeams :: nat
  filteredData :: "webhook list"

definition processData :: "zone \<Rightarrow> int \<Rightarrow> dashboard_state \<Rightarrow> processed" where
  "processData tz now s =
     (let filteredData = filteredData_of s;
          timeFilteredData = timeFilteredData_of tz now s;
          eventTypes = count_by eventType_of timeFilteredData;
          repoActivity = count_by repoName_of timeFilteredData;
          teamActivity = count_by teamName_of timeFilteredData;
          filledDailyActivity = filledDailyActivity_of tz now (daily_pass tz timeFilteredData);
          userActivity = count_by username_of timeFilteredData
      in \<lparr>eventTypes = eventTypes,
          repoActivity = repoActivity,
          teamActivity = teamActivity,
          userActivity = userActivity,
          dailyActivity = filledDailyActivity,
          totalEvents = length timeFilteredData,
          uniqueRepos = length (Object_keys repoActivity),
          uniqueTeams = length (Object_keys teamActivity),
          filteredData = filteredData\<rparr>)"

section \<open>The rest of the rendering\<close>

text \<open>Today's events, out of the \<open>filteredData\<close> that \<open>processData\<close> returned.\<close>

definition todaysEvents :: "zone \<Rightarrow> int \<Rightarrow> dashboard_state \<Rightarrow> webhook list" where
  "todaysEvents tz now s =
     (let todayStr = toLocaleDateString tz (setHours0 tz (Some now))
      in filter (\<lambda>item. toLocaleDateString tz (setHours0 tz (receivedAt item)) = todayStr)
           (filteredData (processData tz now s)))"

definition todaysActivity :: "zone \<Rightarrow> int \<Rightarrow> dashboard_state \<Rightarrow> nat" where
  "todaysActivity tz now s = length (todaysEvents tz now s)"

text \<open>
  \<open>item.repository?.name.slice(5) || 'Unknown'\<close>, in line 190 and in the team cell of
  the table (line 547). The \<open>?.\<close> guards \<open>repository\<close> only: with \<open>repository\<close> present
  and \<open>name\<close> absent, \<open>.slice\<close> is read from \<open>undefined\<close> and throws a TypeError.
\<close>

definition team_label :: "webhook \<Rightarrow> js_error + string" where
  "team_label item =
     (case repository item of
        None \<Rightarrow> Inr ''Unknown''
      | Some r \<Rightarrow>
          (case repository_doc.name r of
             None \<Rightarrow> Inl TypeError
           | Some n \<Rightarrow> Inr (or_literal (Some (drop 5 n)) ''Unknown'')))"

text \<open>\<open>xs.map(f)\<close> with a callback that may throw: the first exception ends the call.\<close>

fun map_throwing :: "('a \<Rightarrow> js_error + 'b) \<Rightarrow> 'a list \<Rightarrow> js_error + 'b list" where
  "map_throwing f [] = Inr []"
| "map_throwing f (x # xs) =
     (case f x of
        Inl e \<Rightarrow> Inl e
      | Inr y \<Rightarrow> (case map_throwing f xs of Inl e \<Rightarrow> Inl e | Inr ys \<Rightarrow> Inr (y # ys)))"

definition teamsWorkedToday :: "zone \<Rightarrow> int \<Rightarrow> dashboard_state \<Rightarrow> js_error + nat" where
  "teamsWorkedToday tz now s =
     (case map_throwing team_label (todaysEvents tz now s) of
        Inl e \<Rightarrow> Inl e
      | Inr labels \<Rightarrow> Inr (length (new_Set labels)))"

text \<open>Rankings: \<open>Object.entries(obj).sort((a, b) => b[1] - a[1])\<close>, and its first five.\<close>

definition ranking :: "(string \<times> jsval) list \<Rightarrow> (string \<times> jsval) list" where
  "ranking obj = sort_by by_count_desc (Object_entries obj)"

definition top5 :: "(string \<times> jsval) list \<Rightarrow> (string \<times> jsval) list" where
  "top5 obj = slice (sort_by by_count_desc (Object_entries obj)) 0 5"

definition topTeams :: "zone \<Rightarrow> int \<Rightarrow> dashboard_state \<Rightarrow> (string \<times> jsval) list" where
  "topTeams tz now s = top5 (teamActivity (processData tz now s))"

definition topUsers :: "zone \<Rightarrow> int \<Rightarrow> dashboard_state \<Rightarrow> (string \<times> jsval) list" where
  "topUsers tz now s = top5 (userActivity (processData tz now s))"

definition leaderboard :: "zone \<Rightarrow> int \<Rightarrow> dashboard_state \<Rightarrow> (string \<times> jsval) list" where
  "leaderboard tz now s = ranking (userActivity (processData tz now s))"

text \<open>
  Pagination. \<open>Math.ceil(length / rowsPerPage)\<close> is the ceiling of the exact quotient:
  an array length is below \<open>2^32\<close>, where the floating-point division by 10 rounds to
  no integer that the exact quotient is not.
\<close>

definition totalPages :: "zone \<Rightarrow> int \<Rightarrow> dashboard_state \<Rightarrow> int" where
  "totalPages tz now s =
     \<lceil>real (length (filteredData (processData tz now s))) / real_of_int rowsPerPage\<rceil>"

definition paginatedData :: "zone \<Rightarrow> int \<Rightarrow> dashboard_state \<Rightarrow> webhook list" where
  "paginatedData tz now s =
     slice (filteredData (processData tz now s))
       ((currentPage s - 1) * rowsPerPage) (currentPage s * rowsPerPage)"

definition handlePrevPage :: "dashboard_state \<Rightarrow> dashboard_state" where
  "handlePrevPage s = s\<lparr>currentPage := max 1 (currentPage s - 1)\<rparr>"

definition handleNextPage :: "zone \<Rightarrow> int \<Rightarrow> dashboard_state \<Rightarrow> dashboard_state" where
  "handleNextPage tz now s =
     s\<lparr>currentPage := min (totalPages tz now s) (currentPage s + 1)\<rparr>"

text \<open>
  The options of the repository selector:
  \<open>[...new Set(webhookData.map(item => item.repository?.name).filter(Boolean))]\<close>
\<close>

definition repositories :: "dashboard_state \<Rightarrow> string option list" where
  "repositories s = new_Set (filter Boolean (map repository_name (webhookData s)))"

section \<open>Notions used in the statements\<close>

text \<open>The position at which a value is first seen in a list.\<close>

definition first_seen :: "'a \<Rightarrow> 'a list \<Rightarrow> nat" where
  "first_seen x xs = length (takeWhile (\<lambda>y. y \<noteq> x) xs)"

definition repository_names :: "dashboard_state \<Rightarrow> string option list" where
  "repository_names s = map repository_name (webhookData s)"

text \<open>A category-count mapping: every stored value is a number.\<close>

definition numeric :: "(string \<times> jsval) list \<Rightarrow> bool" where
  "numeric obj = list_all (\<lambda>e. case snd e of JNum n \<Rightarrow> True | JStr s \<Rightarrow> False) obj"

definition count_of :: "string \<times> jsval \<Rightarrow> int" where
  "count_of e = (case snd e of JNum n \<Rightarrow> int n | JStr s \<Rightarrow> 0)"

text \<open>The sum of the values of a mapping; there is none when a value is no number.\<close>

definition sum_values :: "(string \<times> jsval) list \<Rightarrow> int option" where
  "sum_values obj = (if numeric obj then Some (sum_list (map count_of obj)) else None)"

text \<open>The local day of an event, and the instant of local midnight of a day.\<close>

definition event_day :: "zone \<Rightarrow> webhook \<Rightarrow> int" where
  "event_day tz item = (case receivedAt item of None \<Rightarrow> 0 | Some t \<Rightarrow> local_day tz t)"

definition event_days :: "zone \<Rightarrow> int \<Rightarrow> dashboard_state \<Rightarrow> int list" where
  "event_days tz now s = map (event_day tz) (timeFilteredData_of tz now s)"

definition midnight :: "zone \<Rightarrow> int \<Rightarrow> int" where
  "midnight tz d = d * msPerDay - standard tz"

text \<open>What the tallying pass leaves behind, for events with valid dates.\<close>

definition daily_spec ::
  "zone \<Rightarrow> webhook list \<Rightarrow> (date_string \<times> nat) list \<times> date option \<times> date option
     \<Rightarrow> bool" where
  "daily_spec tz items st =
     (case st of (daily, minDate, maxDate) \<Rightarrow>
        (\<forall>d. or_zero (map_of daily (Calendar_Date d))
               = length (filter (\<lambda>i. event_day tz i = d) items))
        \<and> (if items = [] then minDate = None \<and> maxDate = None
           else minDate = Some (Some (midnight tz (Min (set (map (event_day tz) items)))))
              \<and> maxDate = Some (Some (midnight tz (Max (set (map (event_day tz) items)))))))"

definition filled_row :: "(date_string \<times> nat) list \<Rightarrow> int \<Rightarrow> date_string \<times> nat" where
  "filled_row daily d = (Calendar_Date d, or_zero (map_of daily (Calendar_Date d)))"

section \<open>Sample zones, documents and states\<close>

definition utc :: zone where
  "utc = \<lparr>standard = 0, changes = []\<rparr>"

text \<open>
  America/Santiago around September 2024: four hours behind UTC, and from
  2024-09-08T04:00Z (local midnight, day 19974) one hour ahead of that.
\<close>

definition santiago :: zone where
  "santiago =
     \<lparr>standard = - 4 * msPerHour,
      changes = [(19974 * msPerDay + 4 * msPerHour, 3600000)]\<rparr>"

definition sample_push :: "int \<Rightarrow> string option \<Rightarrow> webhook" where
  "sample_push t n =
     \<lparr>id = ''e'', receivedAt = Some t, githubEvent = Some ''push'',
      repository = Some \<lparr>repository_doc.name = n\<rparr>,
      sender = Some \<lparr>sender_doc.login = Some ''octocat''\<rparr>,
      pusher = None, pull_request = None\<rparr>"

definition sample_no_repository :: webhook where
  "sample_no_repository =
     \<lparr>id = ''f'', receivedAt = Some 3, githubEvent = Some ''ping'',
      repository = None, sender = None, pusher = None, pull_request = None\<rparr>"

definition sample_state :: "webhook list \<Rightarrow> dashboard_state" where
  "sample_state d = initial_state\<lparr>webhookData := d\<rparr>"

definition eleven_events :: "webhook list" where
  "eleven_events =
     replicate 10 (sample_push 3 (Some ''teamA-svc'')) @ [sample_push 3 (Some ''teamB-web'')]"

definition sample_week :: dashboard_state where
  "sample_week =
     sample_state
       [sample_push (8 * msPerDay + 100) (Some ''teamA-svc''),
        sample_push (6 * msPerDay + 7200000) (Some ''teamB-web''),
        sample_push (6 * msPerDay + 100) (Some ''teamA-svc''),
        sample_push (4 * msPerDay + 50000000) (Some ''teamA-svc''),
        sample_push (1 * msPerDay) (Some ''teamA-svc'')]"

definition sample_repositories :: dashboard_state where
  "sample_repositories =
     sample_state
       [sample_push 3 (Some ''teamB-web''), sample_no_repository,
        sample_push 3 (Some ''teamA-svc''), sample_push 3 None, sample_push 3 (Some []),
        sample_push 3 (Some ''teamB-web'')]"

definition santiago_now :: int where
  "santiago_now = 19976 * msPerDay + 18 * msPerHour"

definition santiago_week :: dashboard_state where
  "santiago_week =
     sample_state
       [sample_push (19976 * msPerDay + 12 * msPerHour) (Some ''teamA-svc''),
        sample_push (19972 * msPerDay + 15 * msPerHour) (Some ''teamB-web'')]"

definition sample_counts :: "(string \<times> jsval) list" where
  "sample_counts = [(''b'', JNum 1), (''10'', JNum 2), (''a'', JNum 2), (''2'', JNum 3)]"

section \<open>Basic facts\<close>

lemmas zone_eval = utc_def LocalTime_def UTC_def setDate_plus_def advance_def

lemma filteredData_processData: "filteredData (processData tz now s) = filteredData_of s"
  by (simp add: processData_def Let_def)

lemma totalEvents_processData:
  "totalEvents (processData tz now s) = length (timeFilteredData_of tz now s)"
  by (simp add: processData_def Let_def)

lemma filteredData_of_setTimeRange: "filteredData_of (setTimeRange r s) = filteredData_of s"
  by (simp add: filteredData_of_def setTimeRange_def)

lemma ceiling_tenth: "\<lceil>real n / 10\<rceil> = (int n + 9) div 10"
proof -
  have "\<lceil>real n / 10\<rceil> = \<lceil>real_of_int (int n) / real_of_int 10\<rceil>" by simp
  also have "\<dots> = - (- int n div 10)" by (rule ceiling_divide_eq_div)
  also have "\<dots> = (int n + 9) div 10" by presburger
  finally show ?thesis .
qed

lemma totalPages_div:
  "totalPages tz now s = (int (length (filteredData_of s)) + 9) div 10"
  by (simp add: totalPages_def rowsPerPage_def filteredData_processData ceiling_tenth)

lemma totalPages_currentPage [simp]:
  "totalPages tz now (s\<lparr>currentPage := p\<rparr>) = totalPages tz now s"
  by (simp add: totalPages_div filteredData_of_def)

lemma slice_beyond: "int (length xs) \<le> a \<Longrightarrow> slice xs a b = []"
  by (simp add: slice_def Let_def)

lemma length_slice_page:
  assumes "1 \<le> p"
  shows "int (length (slice xs ((p - 1) * 10) (p * 10)))
           = max 0 (min 10 (int (length xs) - (p - 1) * 10))"
  using assms by (auto simp: slice_def Let_def min_def max_def)

section \<open>Facts about objects, sets and sorting\<close>

lemma map_of_obj_set: "map_of (obj_set ps k v) = (map_of ps)(k \<mapsto> v)"
  by (induction ps) auto

lemma obj_set_new: "map_of ps k = None \<Longrightarrow> obj_set ps k v = ps @ [(k, v)]"
  by (induction ps) (auto split: if_splits)

lemma numeric_iff: "numeric obj \<longleftrightarrow> (\<forall>e \<in> set obj. \<exists>n. snd e = JNum n)"
  by (induction obj) (auto simp: numeric_def split: jsval.splits)

lemma numeric_obj_set: "numeric ps \<Longrightarrow> numeric (obj_set ps k (JNum n))"
  by (induction ps) (auto simp: numeric_def)

lemma numeric_lookup: "numeric ps \<Longrightarrow> map_of ps k = Some v \<Longrightarrow> \<exists>n. v = JNum n"
  by (auto simp: numeric_iff dest!: map_of_SomeD)

lemma total_obj_set_old:
  "map_of ps k = Some (JNum n) \<Longrightarrow>
     sum_list (map count_of (obj_set ps k (JNum (Suc n)))) = sum_list (map count_of ps) + 1"
  by (induction ps) (auto simp: count_of_def split: if_splits)

lemma count_by_snoc: "count_by label (items @ [x]) = tally (count_by label items) (label x)"
  by (simp add: count_by_def)

lemma tally_own_key:
  assumes "k \<notin> set Object_prototype_keys" and "numeric obj"
  shows "numeric (tally obj k)
         \<and> sum_list (map count_of (tally obj k)) = sum_list (map count_of obj) + 1"
proof -
  from assms(1) have k: "k \<noteq> ''__proto__''"
    by (auto simp: Object_prototype_keys_def)
  show ?thesis
  proof (cases "map_of obj k")
    case None
    with assms k show ?thesis
      by (simp add: tally_def get_property_def or_zero_plus_one_def set_property_def
            obj_set_new numeric_def count_of_def)
  next
    case (Some v)
    with assms(2) obtain n where v: "v = JNum n" by (auto dest: numeric_lookup)
    with Some assms k show ?thesis
      by (simp add: tally_def get_property_def or_zero_plus_one_def set_property_def
            numeric_obj_set total_obj_set_old)
  qed
qed

lemma count_by_conserves:
  assumes "\<forall>item \<in> set items. label item \<notin> set Object_prototype_keys"
  shows "numeric (count_by label items)
         \<and> sum_list (map count_of (count_by label items)) = int (length items)"
  using assms
proof (induction items rule: rev_induct)
  case Nil
  show ?case by (simp add: count_by_def numeric_def)
next
  case (snoc x items)
  then have ih: "numeric (count_by label items)"
      "sum_list (map count_of (count_by label items)) = int (length items)"
    and k: "label x \<notin> set Object_prototype_keys"
    by simp_all
  from tally_own_key [OF k ih(1)] ih(2) show ?case
    by (simp add: count_by_snoc)
qed

lemma by_count_desc_numeric:
  "snd x = JNum m \<Longrightarrow> snd y = JNum n \<Longrightarrow> by_count_desc x y = Some (int n - int m)"
  by (simp add: by_count_desc_def to_number_def)

lemma insert_by_insort:
  assumes "numeric (x # ys)"
  shows "insert_by by_count_desc x ys = insort_key (\<lambda>e. - count_of e) x ys"
  using assms
proof (induction ys)
  case Nil
  show ?case by simp
next
  case (Cons y ys)
  from Cons.prems obtain m n where mn: "snd x = JNum m" "snd y = JNum n"
    by (auto simp: numeric_iff)
  from Cons.prems have "numeric (x # ys)" by (simp add: numeric_def)
  with Cons.IH have "insert_by by_count_desc x ys = insort_key (\<lambda>e. - count_of e) x ys" .
  with mn show ?case by (simp add: by_count_desc_numeric count_of_def)
qed

lemma sort_by_sort_key:
  assumes "numeric xs"
  shows "sort_by by_count_desc xs = sort_key (\<lambda>e. - count_of e) xs"
  using assms
proof (induction xs)
  case Nil
  show ?case by (simp add: sort_by_def sort_key_def)
next
  case (Cons x xs)
  from Cons.prems have nx: "numeric xs" by (simp add: numeric_def)
  with Cons.IH have eq: "sort_by by_count_desc xs = sort_key (\<lambda>e. - count_of e) xs" .
  have "numeric (x # sort_key (\<lambda>e. - count_of e) xs)"
    using Cons.prems by (simp add: numeric_iff)
  then have "insert_by by_count_desc x (sort_key (\<lambda>e. - count_of e) xs)
               = insort_key (\<lambda>e. - count_of e) x (sort_key (\<lambda>e. - count_of e) xs)"
    by (rule insert_by_insort)
  then show ?case using eq by (simp add: sort_by_def sort_key_def)
qed

lemma mset_Object_entries: "mset (Object_entries obj) = mset obj"
  by (simp add: Object_entries_def)

lemma set_Object_entries: "set (Object_entries obj) = set obj"
  by (auto simp: Object_entries_def)

lemma length_Object_keys: "length (Object_keys obj) = length obj"
  by (simp add: Object_keys_def Object_entries_def sum_length_filter_compl)

lemma numeric_Object_entries: "numeric (Object_entries obj) = numeric obj"
  by (simp add: numeric_iff set_Object_entries)

lemma slice_prefix: "0 \<le> n \<Longrightarrow> slice xs 0 n = take (nat n) xs"
  by (simp add: slice_def Let_def min_def) 

lemma length_sort_by: "length (sort_by cmp xs) = length xs"
proof -
  have "length (insert_by cmp x ys) = Suc (length ys)" for x ys
    by (induction ys) auto
  then show ?thesis unfolding sort_by_def by (induction xs) auto
qed

lemma top5_take: "top5 obj = take 5 (ranking obj)"
  by (simp add: top5_def ranking_def slice_prefix)

lemma new_Set_snoc: "new_Set (xs @ [x]) = Set_add x (new_Set xs)"
  by (simp add: new_Set_def)

lemma set_new_Set: "set (new_Set xs) = set xs"
  by (induction xs rule: rev_induct) (auto simp: new_Set_snoc Set_add_def new_Set_def)

lemma distinct_new_Set: "distinct (new_Set xs)"
  by (induction xs rule: rev_induct) (auto simp: new_Set_snoc Set_add_def new_Set_def)

lemma first_seen_append: "a \<in> set xs \<Longrightarrow> first_seen a (xs @ ys) = first_seen a xs"
  by (simp add: first_seen_def)

lemma first_seen_less: "a \<in> set xs \<Longrightarrow> first_seen a xs < length xs"
  unfolding first_seen_def by (induction xs) auto

lemma first_seen_new: "a \<notin> set xs \<Longrightarrow> first_seen a (xs @ a # ys) = length xs"
  unfolding first_seen_def by (induction xs) auto

lemma sorted_wrt_cong_set:
  "(\<And>a b. a \<in> set xs \<Longrightarrow> b \<in> set xs \<Longrightarrow> P a b = Q a b) \<Longrightarrow> sorted_wrt P xs = sorted_wrt Q xs"
  by (induction xs) auto

lemma repositories_snoc:
  "repositories (s\<lparr>webhookData := d @ [item]\<rparr>) =
     (if Boolean (repository_name item)
      then Set_add (repository_name item) (repositories (s\<lparr>webhookData := d\<rparr>))
      else repositories (s\<lparr>webhookData := d\<rparr>))"
  by (simp add: repositories_def new_Set_snoc)

lemma set_repositories:
  "set (repositories s) = {v \<in> set (repository_names s). Boolean v}"
  by (simp add: repositories_def set_new_Set repository_names_def)

lemma repositories_order_aux:
  "sorted_wrt (\<lambda>a b. first_seen a (map repository_name d) < first_seen b (map repository_name d))
     (repositories (s\<lparr>webhookData := d\<rparr>))"
proof (induction d rule: rev_induct)
  case Nil
  show ?case by (simp add: repositories_def new_Set_def)
next
  case (snoc item d)
  let ?names = "map repository_name d"
  let ?r = "repositories (s\<lparr>webhookData := d\<rparr>)"
  have mem: "\<And>a. a \<in> set ?r \<Longrightarrow> a \<in> set ?names"
    by (simp add: set_repositories repository_names_def)
  have keep: "sorted_wrt (\<lambda>a b. first_seen a (?names @ [repository_name item])
                  < first_seen b (?names @ [repository_name item])) ?r"
    using snoc.IH mem
    by (simp add: first_seen_append cong: sorted_wrt_cong_set)
  show ?case
  proof (cases "Boolean (repository_name item) \<and> repository_name item \<notin> set ?r")
    case False
    then show ?thesis using keep by (auto simp: repositories_snoc Set_add_def)
  next
    case True
    then have new: "repository_name item \<notin> set ?names"
      by (auto simp: set_repositories repository_names_def)
    have "first_seen a (?names @ [repository_name item])
              < first_seen (repository_name item) (?names @ [repository_name item])"
      if "a \<in> set ?r" for a
    proof -
      have "a \<in> set ?names" using that by (rule mem)
      then have "first_seen a (?names @ [repository_name item]) < length ?names"
        by (simp only: first_seen_append first_seen_less)
      moreover have "first_seen (repository_name item) (?names @ [repository_name item])
                       = length ?names"
        using new by (rule first_seen_new)
      ultimately show ?thesis by simp
    qed
    with True keep show ?thesis
      by (simp add: repositories_snoc Set_add_def sorted_wrt_append)
  qed
qed

section \<open>Facts about the daily series\<close>

text \<open>In a zone without changes of the clock, local time is UTC plus the standard offset.\<close>

lemma fixed_LocalTime: "changes tz = [] \<Longrightarrow> LocalTime tz t = t + standard tz"
  by (simp add: LocalTime_def)

lemma fixed_UTC: "changes tz = [] \<Longrightarrow> UTC tz lt = lt - standard tz"
  by (simp add: UTC_def)

lemma fixed_setDate_plus: "changes tz = [] \<Longrightarrow> setDate_plus tz n t = t + n * msPerDay"
  by (simp add: setDate_plus_def fixed_LocalTime fixed_UTC)

lemma local_day_midnight: "changes tz = [] \<Longrightarrow> local_day tz (midnight tz d) = d"
  by (simp add: local_day_def midnight_def msPerDay_def fixed_LocalTime)

lemma midnight_less [simp]: "midnight tz a < midnight tz b \<longleftrightarrow> a < b"
  by (simp add: midnight_def msPerDay_def)

lemma midnight_le [simp]: "midnight tz a \<le> midnight tz b \<longleftrightarrow> a \<le> b"
  by (simp add: midnight_def msPerDay_def)

lemma midnight_next: "midnight tz a + msPerDay = midnight tz (a + 1)"
  by (simp add: midnight_def algebra_simps)

lemma setHours0_valid:
  "changes tz = [] \<Longrightarrow> receivedAt item = Some t \<Longrightarrow>
     setHours0 tz (receivedAt item) = Some (midnight tz (event_day tz item))"
  by (simp add: setHours0_def event_day_def midnight_def fixed_UTC)

lemma toLocaleDateString_midnight:
  "changes tz = [] \<Longrightarrow> toLocaleDateString tz (Some (midnight tz d)) = Calendar_Date d"
  by (simp add: toLocaleDateString_def local_day_midnight)

lemma timeFiltered_valid:
  "item \<in> set (timeFilteredData_of tz now s) \<Longrightarrow> \<exists>t. receivedAt item = Some t"
  by (auto simp: timeFilteredData_of_def date_ge_def split: option.splits)

lemma daily_pass_snoc: "daily_pass tz (items @ [x]) = daily_step tz x (daily_pass tz items)"
  by (simp add: daily_pass_def)

lemma daily_pass_spec:
  assumes fx: "changes tz = []"
    and valid: "\<forall>item \<in> set items. \<exists>t. receivedAt item = Some t"
  shows "daily_spec tz items (daily_pass tz items)"
  using valid
proof (induction items rule: rev_induct)
  case Nil
  show ?case by (simp add: daily_spec_def daily_pass_def or_zero_def)
next
  case (snoc x items)
  obtain daily mn mx where st: "daily_pass tz items = (daily, mn, mx)"
    by (cases "daily_pass tz items") auto
  from snoc obtain t where t: "receivedAt x = Some t" by auto
  from snoc have ih: "daily_spec tz items (daily, mn, mx)" by (simp add: st)
  let ?d = "event_day tz x"
  have dobj: "setHours0 tz (receivedAt x) = Some (midnight tz ?d)"
    using fx t by (rule setHours0_valid)
  have cnt: "or_zero (map_of (obj_set daily (Calendar_Date ?d)
                (or_zero (map_of daily (Calendar_Date ?d)) + 1)) (Calendar_Date d))
             = length (filter (\<lambda>i. event_day tz i = d) (items @ [x]))" for d
    using ih by (auto simp: daily_spec_def map_of_obj_set or_zero_def)
  have step: "daily_pass tz (items @ [x]) =
      (obj_set daily (Calendar_Date ?d) (or_zero (map_of daily (Calendar_Date ?d)) + 1),
       (case mn of None \<Rightarrow> Some (Some (midnight tz ?d))
        | Some m \<Rightarrow> if date_lt (Some (midnight tz ?d)) m then Some (Some (midnight tz ?d))
                   else Some m),
       (case mx of None \<Rightarrow> Some (Some (midnight tz ?d))
        | Some m \<Rightarrow> if date_gt (Some (midnight tz ?d)) m then Some (Some (midnight tz ?d))
                   else Some m))"
    by (simp add: daily_pass_snoc st daily_step_def dobj Let_def
          toLocaleDateString_midnight [OF fx])
  have bounds: "(case mn of None \<Rightarrow> Some (Some (midnight tz ?d))
        | Some m \<Rightarrow> if date_lt (Some (midnight tz ?d)) m then Some (Some (midnight tz ?d))
                   else Some m)
        = Some (Some (midnight tz (Min (set (map (event_day tz) (items @ [x]))))))
      \<and> (case mx of None \<Rightarrow> Some (Some (midnight tz ?d))
        | Some m \<Rightarrow> if date_gt (Some (midnight tz ?d)) m then Some (Some (midnight tz ?d))
                   else Some m)
        = Some (Some (midnight tz (Max (set (map (event_day tz) (items @ [x]))))))"
  proof (cases "items = []")
    case True
    with ih have "mn = None" "mx = None" by (simp_all add: daily_spec_def)
    with True show ?thesis by simp
  next
    case False
    with ih have mn: "mn = Some (Some (midnight tz (Min (set (map (event_day tz) items)))))"
      and mx: "mx = Some (Some (midnight tz (Max (set (map (event_day tz) items)))))"
      by (simp_all add: daily_spec_def)
    from False have ne: "set (map (event_day tz) items) \<noteq> {}" by simp
    have mins: "Min (set (map (event_day tz) (items @ [x])))
                  = min ?d (Min (set (map (event_day tz) items)))"
      using ne by simp
    have maxs: "Max (set (map (event_day tz) (items @ [x])))
                  = max ?d (Max (set (map (event_day tz) items)))"
      using ne by simp
    show ?thesis
      unfolding mins maxs mn mx
      by (auto simp: date_lt_def date_gt_def min_def max_def)
  qed
  show ?case
    unfolding step daily_spec_def using cnt bounds by simp
qed


lemma fill_loop_range:
  assumes fx: "changes tz = []"
    and free: "\<forall>d \<ge> a. map_of filled (Calendar_Date d) = None"
  shows "fill_loop tz daily (midnight tz a) (midnight tz b) filled
           = filled @ map (filled_row daily) [a..b]"
  using free
proof (induction "nat (b + 1 - a)" arbitrary: a filled)
  case 0
  then have "b < a" by simp
  then show ?case by (subst fill_loop.simps) simp
next
  case (Suc n)
  then have le: "a \<le> b" and n: "n = nat (b + 1 - (a + 1))" by simp_all
  let ?filled = "obj_set filled (Calendar_Date a) (or_zero (map_of daily (Calendar_Date a)))"
  have new: "?filled = filled @ [filled_row daily a]"
    using Suc.prems by (simp add: obj_set_new filled_row_def)
  have "\<forall>d \<ge> a + 1. map_of ?filled (Calendar_Date d) = None"
    using Suc.prems by (simp add: map_of_obj_set)
  with Suc.hyps(1) [OF n] have
    "fill_loop tz daily (midnight tz (a + 1)) (midnight tz b) ?filled
       = ?filled @ map (filled_row daily) [a + 1..b]" .
  moreover have "[a..b] = a # [a + 1..b]" using le by (rule upto_rec1)
  ultimately show ?case
    using le
    by (subst fill_loop.simps)
       (simp add: Let_def midnight_next new fixed_setDate_plus [OF fx]
          toLocaleDateString_midnight [OF fx])
qed

lemma sum_day_counts:
  assumes "\<forall>item \<in> set items. lo \<le> f item \<and> f item \<le> hi"
  shows "(\<Sum>d\<leftarrow>[lo..hi]. length (filter (\<lambda>i. f i = d) items)) = length items"
  using assms
proof (induction items)
  case Nil
  show ?case by simp
next
  case (Cons x items)
  then have ih: "(\<Sum>d\<leftarrow>[lo..hi]. length (filter (\<lambda>i. f i = d) items)) = length items"
    and x: "f x \<in> set [lo..hi]" by simp_all
  have "(\<Sum>d\<leftarrow>[lo..(hi::int)]. length (filter (\<lambda>i. f i = d) (x # items)))
          = (\<Sum>d\<leftarrow>[lo..hi]. (if f x = d then 1 else 0) + length (filter (\<lambda>i. f i = d) items))"
    by (rule arg_cong [where f = sum_list]) simp
  also have "\<dots> = (\<Sum>d\<leftarrow>[lo..hi]. if f x = d then 1 else 0)
                   + (\<Sum>d\<leftarrow>[lo..hi]. length (filter (\<lambda>i. f i = d) items))"
    by (simp add: sum_list_addf)
  also have "(\<Sum>d\<leftarrow>[lo..hi]. if f x = d then 1 else 0) = (1::nat)"
    using x by (simp add: sum_list_distinct_conv_sum_set)
  finally show ?case using ih by simp
qed


lemma dailyActivity_rows:
  assumes fx: "changes tz = []"
  shows "dailyActivity (processData tz now s) =
     (if timeFilteredData_of tz now s = [] then []
      else map (\<lambda>d. (Calendar_Date d,
                  length (filter (\<lambda>i. event_day tz i = d) (timeFilteredData_of tz now s))))
             [Min (set (event_days tz now s))
                .. max (Max (set (event_days tz now s))) (local_day tz now)])"
proof -
  let ?items = "timeFilteredData_of tz now s"
  obtain daily mn mx where st: "daily_pass tz ?items = (daily, mn, mx)"
    by (cases "daily_pass tz ?items") auto
  have "daily_spec tz ?items (daily_pass tz ?items)"
    using fx by (rule daily_pass_spec) (auto dest: timeFiltered_valid)
  then have spec: "daily_spec tz ?items (daily, mn, mx)" by (simp add: st)
  have da: "dailyActivity (processData tz now s) = filledDailyActivity_of tz now (daily, mn, mx)"
    by (simp add: processData_def Let_def st)
  show ?thesis
  proof (cases "?items = []")
    case True
    with spec have "mn = None" by (simp add: daily_spec_def)
    with True show ?thesis by (simp add: da filledDailyActivity_of_def)
  next
    case False
    let ?lo = "Min (set (event_days tz now s))"
    let ?hi = "Max (set (event_days tz now s))"
    from False spec have mn: "mn = Some (Some (midnight tz ?lo))"
      and mx: "mx = Some (Some (midnight tz ?hi))"
      and cnt: "\<And>d. or_zero (map_of daily (Calendar_Date d))
                  = length (filter (\<lambda>i. event_day tz i = d) ?items)"
      by (simp_all add: daily_spec_def event_days_def)
    have today: "setHours0 tz (Some now) = Some (midnight tz (local_day tz now))"
      by (simp add: setHours0_def midnight_def fixed_UTC [OF fx])
    have "filledDailyActivity_of tz now (daily, mn, mx)
            = fill_loop tz daily (midnight tz ?lo)
                (midnight tz (max ?hi (local_day tz now))) []"
      by (simp add: filledDailyActivity_of_def mn mx today date_gt_def Let_def max_def)
    also have "\<dots> = map (filled_row daily) [?lo .. max ?hi (local_day tz now)]"
      using fill_loop_range [OF fx, of ?lo "[]" daily "max ?hi (local_day tz now)"] by simp
    finally show ?thesis using False by (simp add: da filled_row_def cnt)
  qed
qed

section \<open>Daily series\<close>

text \<open>
  Claim C1 says that for every snapshot the daily series runs without a gap from the day
  of the earliest filtered event to the later of the day of the latest filtered event
  and today, and that its counts add up to the number of filtered events. Where the
  clocks go forward at local midnight, \<open>setDate\<close> moves \<open>current\<close> to 01:00 of that
  day and every later day, so on the last day \<open>current\<close> is later than \<open>endDate\<close> and the
  loop ends a day early. In America/Santiago, for events of 6 and 10 September 2024 seen
  on 10 September with the range \<open>7d\<close>, both events pass the filters, but the series
  ends on 9 September (day 19975): today is missing and the counts add up to 1.
\<close>

theorem daily_series_drops_today:
  "length (timeFilteredData_of santiago santiago_now santiago_week) = 2
   \<and> event_days santiago santiago_now santiago_week = [19976, 19972]
   \<and> local_day santiago santiago_now = 19976
   \<and> dailyActivity (processData santiago santiago_now santiago_week)
       = [(Calendar_Date 19972, 1), (Calendar_Date 19973, 0), (Calendar_Date 19974, 0),
          (Calendar_Date 19975, 0)]
   \<and> sum_list (map snd (dailyActivity (processData santiago santiago_now santiago_week)))
       \<noteq> length (timeFilteredData_of santiago santiago_now santiago_week)"
proof -
  have tf: "timeFilteredData_of santiago santiago_now santiago_week
              = webhookData santiago_week"
    by (simp add: timeFilteredData_of_def filteredData_of_def cutoffDate_def zone_eval date_ge_def
          santiago_week_def santiago_now_def sample_state_def initial_state_def
          sample_push_def santiago_def msPerDay_def msPerHour_def)
  have days: "event_days santiago santiago_now santiago_week = [19976, 19972]"
    unfolding event_days_def tf
    by (simp add: event_day_def local_day_def santiago_week_def sample_state_def
          initial_state_def sample_push_def zone_eval santiago_def msPerDay_def
          msPerHour_def)
  have today: "local_day santiago santiago_now = 19976"
    by (simp add: local_day_def santiago_now_def zone_eval santiago_def msPerDay_def
          msPerHour_def)
  have series: "dailyActivity (processData santiago santiago_now santiago_week)
       = [(Calendar_Date 19972, 1), (Calendar_Date 19973, 0), (Calendar_Date 19974, 0),
          (Calendar_Date 19975, 0)]"
    unfolding processData_def Let_def tf
    by (simp add: Let_def santiago_week_def santiago_now_def sample_state_def initial_state_def
          sample_push_def date_lt_def date_gt_def daily_pass_def daily_step_def
          filledDailyActivity_of_def fill_loop.simps setHours0_def toLocaleDateString_def
          or_zero_def local_day_def zone_eval santiago_def msPerDay_def msPerHour_def)
  have len: "length (timeFilteredData_of santiago santiago_now santiago_week) = 2"
    unfolding tf by (simp add: santiago_week_def sample_state_def)
  show ?thesis
    unfolding days today series len by simp
qed

text \<open>
  In a zone without changes of the clock the series is complete: it is empty when no
  event passes the filters, and otherwise holds the days from the earliest event day to
  the later of the latest event day and today, each with the number of its events.
\<close>

lemma daily_series_complete_fixed_offset:
  assumes fx: "changes tz = []"
  shows "(timeFilteredData_of tz now s = [] \<longrightarrow> dailyActivity (processData tz now s) = [])
   \<and> (timeFilteredData_of tz now s \<noteq> [] \<longrightarrow>
        map fst (dailyActivity (processData tz now s))
          = map Calendar_Date
              [Min (set (event_days tz now s))
                 .. max (Max (set (event_days tz now s))) (local_day tz now)])
   \<and> (\<forall>(d, n) \<in> set (dailyActivity (processData tz now s)).
          n = length (filter (\<lambda>item. toLocaleDateString tz (receivedAt item) = d)
                        (timeFilteredData_of tz now s)))
   \<and> sum_list (map snd (dailyActivity (processData tz now s)))
       = length (timeFilteredData_of tz now s)"
proof -
  let ?items = "timeFilteredData_of tz now s"
  let ?lo = "Min (set (event_days tz now s))"
  let ?hi = "max (Max (set (event_days tz now s))) (local_day tz now)"
  have day: "toLocaleDateString tz (receivedAt item) = Calendar_Date d \<longleftrightarrow> event_day tz item = d"
    if "item \<in> set ?items" for item d
    using timeFiltered_valid [OF that] by (auto simp: toLocaleDateString_def event_day_def)
  have flt: "filter (\<lambda>item. toLocaleDateString tz (receivedAt item) = Calendar_Date d) ?items
               = filter (\<lambda>i. event_day tz i = d) ?items" for d
    by (rule filter_cong) (simp_all add: day)
  have "\<forall>(d, n) \<in> set (dailyActivity (processData tz now s)).
          n = length (filter (\<lambda>item. toLocaleDateString tz (receivedAt item) = d) ?items)"
    by (auto simp: dailyActivity_rows [OF fx] flt)
  moreover have "sum_list (map snd (dailyActivity (processData tz now s))) = length ?items"
  proof (cases "?items = []")
    case True
    then show ?thesis by (simp add: dailyActivity_rows [OF fx])
  next
    case False
    have "?lo \<le> event_day tz item \<and> event_day tz item \<le> ?hi"
      if "item \<in> set ?items" for item
    proof -
      from that have "event_day tz item \<in> set (event_days tz now s)"
        by (simp add: event_days_def)
      then have "?lo \<le> event_day tz item"
        and "event_day tz item \<le> Max (set (event_days tz now s))"
        by simp_all
      then show ?thesis by simp
    qed
    then have "\<forall>item \<in> set ?items. ?lo \<le> event_day tz item \<and> event_day tz item \<le> ?hi"
      by blast
    from sum_day_counts [OF this] False show ?thesis
      by (simp add: dailyActivity_rows [OF fx] o_def)
  qed
  ultimately show ?thesis by (simp add: dailyActivity_rows [OF fx] o_def)
qed


text \<open>
  A week with two events on day 6 and none on days 5, 7, 9 and 10, seen on day 10 with
  the range \<open>7d\<close>; the event of day 1 is outside the range.
\<close>

lemma sample_week_series:
  "dailyActivity (processData utc (10 * msPerDay + 5) sample_week) =
     [(Calendar_Date 4, 1), (Calendar_Date 5, 0), (Calendar_Date 6, 2), (Calendar_Date 7, 0),
      (Calendar_Date 8, 1), (Calendar_Date 9, 0), (Calendar_Date 10, 0)]"
  by (simp add: processData_def Let_def sample_week_def sample_state_def initial_state_def
        sample_push_def timeFilteredData_of_def filteredData_of_def cutoffDate_def zone_eval
        date_ge_def date_lt_def date_gt_def daily_pass_def daily_step_def
        filledDailyActivity_of_def fill_loop.simps setHours0_def toLocaleDateString_def
        or_zero_def local_day_def msPerDay_def)

section \<open>Count conservation\<close>

text \<open>
  Claim C2 says that for every snapshot the values of the event-type counts and of the
  repository counts each add up to the number of filtered events. The count objects
  are created by \<open>{}\<close>: for a repository named \<open>constructor\<close> the first read finds the
  inherited \<open>Object\<close> function, and the stored value is a string, not a count; for a
  repository named \<open>__proto__\<close> nothing is stored at all. In both snapshots one event
  passes the filters.
\<close>

theorem count_conservation_fails_inherited_key:
  "sum_values (repoActivity (processData utc 5 (sample_state [sample_push 3 (Some ''constructor'')])))
     = None
   \<and> repoActivity (processData utc 5 (sample_state [sample_push 3 (Some ''constructor'')]))
     = [(''constructor'', JStr ''function Object() { [native code] }1'')]
   \<and> sum_values (repoActivity (processData utc 5 (sample_state [sample_push 3 (Some ''__proto__'')])))
     = Some 0
   \<and> sum_values (eventTypes (processData utc 5 (sample_state [sample_push 3 (Some ''constructor'')])))
     = Some 1
   \<and> totalEvents (processData utc 5 (sample_state [sample_push 3 (Some ''constructor'')])) = 1
   \<and> totalEvents (processData utc 5 (sample_state [sample_push 3 (Some ''__proto__'')])) = 1"
  by (simp add: processData_def Let_def sum_values_def numeric_def count_of_def
        timeFilteredData_of_def filteredData_of_def sample_state_def initial_state_def
        cutoffDate_def zone_eval date_ge_def msPerDay_def sample_push_def count_by_def tally_def
        get_property_def set_property_def or_zero_plus_one_def inherited_text_def
        Object_prototype_keys_def repoName_of_def eventType_of_def repository_name_def
        or_literal_def)

text \<open>
  The sums are conserved whenever no label of a filtered event is the name of a member
  of \<open>Object.prototype\<close>.
\<close>

lemma count_conservation_own_keys:
  assumes "\<forall>item \<in> set (timeFilteredData_of tz now s).
             eventType_of item \<notin> set Object_prototype_keys
             \<and> repoName_of item \<notin> set Object_prototype_keys"
  shows "sum_values (eventTypes (processData tz now s)) = Some (int (totalEvents (processData tz now s)))
         \<and> sum_values (repoActivity (processData tz now s)) = Some (int (totalEvents (processData tz now s)))"
  using count_by_conserves [of "timeFilteredData_of tz now s" eventType_of]
        count_by_conserves [of "timeFilteredData_of tz now s" repoName_of] assms
  by (simp add: processData_def Let_def sum_values_def)

section \<open>Rankings\<close>

text \<open>
  Claim C8: for every category-count mapping, the top-5 ranking is the prefix of length
  \<open>min(5, size)\<close> of the full ranking, and the full ranking holds the entries of the
  mapping sorted by non-increasing count, entries of equal count in the order in which
  the mapping lists them.
\<close>

theorem ranking_sorted_stable:
  "top5 obj = take (min 5 (length (Object_keys obj))) (ranking obj)
   \<and> length (top5 obj) = min 5 (length (Object_keys obj))
   \<and> length (ranking obj) = length (Object_keys obj)
   \<and> topUsers tz now s
       = take (min 5 (length (Object_keys (userActivity (processData tz now s)))))
           (leaderboard tz now s)
   \<and> (numeric obj \<longrightarrow>
        sorted_wrt (\<lambda>a b. count_of a \<ge> count_of b) (ranking obj)
        \<and> mset (ranking obj) = mset (Object_entries obj)
        \<and> (\<forall>c. filter (\<lambda>e. count_of e = c) (ranking obj)
                 = filter (\<lambda>e. count_of e = c) (Object_entries obj)))"
proof -
  have len: "length (ranking obj) = length (Object_keys obj)"
    by (simp add: ranking_def length_sort_by Object_keys_def)
  have "top5 obj = take (min 5 (length (Object_keys obj))) (ranking obj)"
    using len by (simp add: top5_take min_def)
  moreover have "length (top5 obj) = min 5 (length (Object_keys obj))"
    using len by (simp add: top5_take)
  moreover have "topUsers tz now s
       = take (min 5 (length (Object_keys (userActivity (processData tz now s)))))
           (leaderboard tz now s)"
    by (simp add: topUsers_def leaderboard_def top5_take ranking_def length_sort_by
          Object_keys_def min_def)
  moreover have "sorted_wrt (\<lambda>a b. count_of a \<ge> count_of b) (ranking obj)
        \<and> mset (ranking obj) = mset (Object_entries obj)
        \<and> (\<forall>c. filter (\<lambda>e. count_of e = c) (ranking obj)
                 = filter (\<lambda>e. count_of e = c) (Object_entries obj))" if n: "numeric obj"
  proof -
    let ?f = "\<lambda>e. - count_of e"
    have r: "ranking obj = sort_key ?f (Object_entries obj)"
      using n by (simp add: ranking_def sort_by_sort_key numeric_Object_entries)
    have "sorted (map ?f (ranking obj))" unfolding r by (rule sorted_sort_key)
    then have "sorted_wrt (\<lambda>a b. count_of a \<ge> count_of b) (ranking obj)"
      by (simp add: sorted_map)
    moreover have "mset (ranking obj) = mset (Object_entries obj)"
      unfolding r by simp
    moreover have "filter (\<lambda>e. count_of e = c) (ranking obj)
                 = filter (\<lambda>e. count_of e = c) (Object_entries obj)" for c
      using sort_key_stable [of ?f "- c" "Object_entries obj"] unfolding r by simp
    ultimately show ?thesis by blast
  qed
  ultimately show ?thesis using len by blast
qed

theorem ranking_sorted_stable_witness:
  "numeric sample_counts
   \<and> ranking sample_counts
       = [(''2'', JNum 3), (''10'', JNum 2), (''a'', JNum 2), (''b'', JNum 1)]
   \<and> sorted_wrt (\<lambda>a b. count_of a \<ge> count_of b) (ranking sample_counts)"
  using ranking_sorted_stable [of sample_counts utc 5 initial_state]
  by (simp add: numeric_def sample_counts_def)
     (simp add: ranking_def Object_entries_def is_array_index_def is_digit_def
        digits_value_def sort_by_def by_count_desc_def to_number_def sample_counts_def)

section \<open>Repository selector\<close>

text \<open>
  Claim C10: the options of the repository selector come from the whole snapshot. Each
  repository name that is present and not empty occurs exactly once, in the order in
  which the names are first seen; events without a name (or with an empty one) add no
  option, so \<open>Unknown\<close> is an option only when an event carries that very name.
\<close>

theorem repositories_first_seen:
  "distinct (repositories s)
   \<and> set (repositories s) =
       {Some n | n. n \<noteq> [] \<and> (\<exists>item \<in> set (webhookData s). repository_name item = Some n)}
   \<and> sorted_wrt (\<lambda>a b. first_seen a (repository_names s) < first_seen b (repository_names s))
        (repositories s)
   \<and> repositories s =
       repositories (s\<lparr>webhookData := filter (\<lambda>item. Boolean (repository_name item)) (webhookData s)\<rparr>)
   \<and> (Some ''Unknown'' \<in> set (repositories s) \<longleftrightarrow>
        (\<exists>item \<in> set (webhookData s). repository_name item = Some ''Unknown''))"
proof -
  have "distinct (repositories s)"
    by (simp add: repositories_def distinct_new_Set)
  moreover have st: "set (repositories s) =
       {Some n | n. n \<noteq> [] \<and> (\<exists>item \<in> set (webhookData s). repository_name item = Some n)}"
    by (auto simp: set_repositories repository_names_def Boolean_def image_iff
          split: option.splits) (metis, force)
  moreover have "sorted_wrt (\<lambda>a b. first_seen a (repository_names s) < first_seen b (repository_names s))
        (repositories s)"
    using repositories_order_aux [of "webhookData s" s] by (simp add: repository_names_def)
  moreover have "repositories s =
       repositories (s\<lparr>webhookData := filter (\<lambda>item. Boolean (repository_name item)) (webhookData s)\<rparr>)"
    by (simp add: repositories_def filter_map o_def)
  moreover have "Some ''Unknown'' \<in> set (repositories s) \<longleftrightarrow>
        (\<exists>item \<in> set (webhookData s). repository_name item = Some ''Unknown'')"
    unfolding st by auto
  ultimately show ?thesis by blast
qed


theorem repositories_first_seen_witness:
  "repositories sample_repositories = [Some ''teamB-web'', Some ''teamA-svc'']
   \<and> distinct (repositories sample_repositories)
   \<and> Some ''Unknown'' \<notin> set (repositories sample_repositories)"
  using repositories_first_seen [of sample_repositories]
  by (simp add: repositories_def new_Set_def Set_add_def Boolean_def repository_name_def
        sample_repositories_def sample_state_def initial_state_def sample_push_def
        sample_no_repository_def)

section \<open>Pagination source\<close>

text \<open>
  Claim C3 says that \<open>totalPages\<close> and the page slice are computed from the events that
  survive both the repository filter and the time filter. They are not: \<open>processData\<close>
  returns as \<open>filteredData\<close> the list after the repository filter alone. With the range
  \<open>24h\<close> and one event ten days old, no event survives both filters, yet pagination
  counts one event, one page, and shows the event.
\<close>

theorem pagination_source_counterexample:
  "length (filteredData (processData utc (10 * msPerDay)
       (setTimeRange ''24h'' (sample_state [sample_push 3 (Some ''teamA-svc'')]))))
     \<noteq> length (timeFilteredData_of utc (10 * msPerDay)
       (setTimeRange ''24h'' (sample_state [sample_push 3 (Some ''teamA-svc'')])))
   \<and> length (filteredData (processData utc (10 * msPerDay)
       (setTimeRange ''24h'' (sample_state [sample_push 3 (Some ''teamA-svc'')])))) = 1
   \<and> totalPages utc (10 * msPerDay)
       (setTimeRange ''24h'' (sample_state [sample_push 3 (Some ''teamA-svc'')])) = 1
   \<and> paginatedData utc (10 * msPerDay)
       (setTimeRange ''24h'' (sample_state [sample_push 3 (Some ''teamA-svc'')]))
      = [sample_push 3 (Some ''teamA-svc'')]"
  by (simp add: timeFilteredData_of_def filteredData_processData filteredData_of_def
        totalPages_div paginatedData_def slice_def rowsPerPage_def
        setTimeRange_def sample_state_def initial_state_def cutoffDate_def zone_eval date_ge_def
        msPerDay_def sample_push_def)

text \<open>
  Claim C3, amended: \<open>totalPages\<close> and the page slice are computed from the list that
  the repository filter alone produces (the whole snapshot for \<open>all\<close>). The length
  used by pagination is the number of events surviving the repository filter; it does
  not change with \<open>timeRange\<close> and is at least \<open>totalEvents\<close>.
\<close>

theorem pagination_source:
  "filteredData (processData tz now s) =
     (if selectedRepo s = ''all'' then webhookData s
      else filter (\<lambda>item. repository_name item = Some (selectedRepo s)) (webhookData s))
   \<and> totalPages tz now s = \<lceil>real (length (filteredData_of s)) / 10\<rceil>
   \<and> paginatedData tz now s =
       slice (filteredData_of s) ((currentPage s - 1) * 10) (currentPage s * 10)
   \<and> totalPages tz now (setTimeRange r s) = totalPages tz now s
   \<and> paginatedData tz now (setTimeRange r s) = paginatedData tz now s
   \<and> totalEvents (processData tz now s) \<le> length (filteredData (processData tz now s))"
  by (simp add: filteredData_processData totalPages_def paginatedData_def rowsPerPage_def
        filteredData_of_setTimeRange totalEvents_processData timeFilteredData_of_def)
     (simp add: filteredData_of_def setTimeRange_def)

theorem pagination_source_witness:
  "filteredData (processData utc 5 (setSelectedRepo ''teamB-web'' (sample_state eleven_events)))
     = [sample_push 3 (Some ''teamB-web'')]
   \<and> totalPages utc 5 (sample_state eleven_events) = 2"
  using pagination_source [of utc 5 "setSelectedRepo ''teamB-web'' (sample_state eleven_events)"]
        pagination_source [of utc 5 "sample_state eleven_events"]
  by (simp add: setSelectedRepo_def sample_state_def initial_state_def eleven_events_def
        sample_push_def repository_name_def filteredData_of_def ceiling_tenth)

section \<open>Team labels\<close>

text \<open>
  Claim C4 says that the team label of an event with repository name \<open>teamA-svc\<close> is
  \<open>svc\<close> and that an event without a repository name has the team label \<open>Unknown\<close>.
  In \<open>processData\<close> the first is \<open>-svc\<close> (five characters are dropped, \<open>teamA\<close>), and
  the second is \<open>wn\<close> (five characters dropped from the default \<open>Unknown\<close>).
\<close>

theorem team_label_counterexample:
  "teamName_of (sample_push 3 (Some ''teamA-svc'')) \<noteq> ''svc''
   \<and> teamName_of sample_no_repository \<noteq> ''Unknown''"
  by (simp add: teamName_of_def repoName_of_def repository_name_def or_literal_def
        sample_push_def sample_no_repository_def)

text \<open>
  Claim C4, amended: the team label of an event with a non-empty repository name is that
  name without its first five characters, so \<open>teamA-svc\<close> gives \<open>-svc\<close>. Without a
  repository name the repository label is \<open>Unknown\<close>, and an event without a
  \<open>repository\<close> object has the team label \<open>Unknown\<close> in the table and in the count of
  today's teams.
\<close>

theorem team_label_strips_five:
  "(repository_name item = Some n \<and> n \<noteq> [] \<longrightarrow> teamName_of item = drop 5 n)
   \<and> teamName_of (sample_push t (Some ''teamA-svc'')) = ''-svc''
   \<and> (repository_name item = None \<longrightarrow> repoName_of item = ''Unknown'')
   \<and> (repository item = None \<longrightarrow> team_label item = Inr ''Unknown'')"
  by (simp add: teamName_of_def repoName_of_def repository_name_def or_literal_def
        sample_push_def team_label_def)

theorem team_label_strips_five_witness:
  "teamName_of (sample_push 3 (Some ''contest-alpha'')) = ''st-alpha''
   \<and> repoName_of sample_no_repository = ''Unknown''
   \<and> team_label sample_no_repository = Inr ''Unknown''"
  using team_label_strips_five [of "sample_push 3 (Some ''contest-alpha'')" "''contest-alpha''" 3]
        team_label_strips_five [of sample_no_repository "''x''" 3]
  by (simp add: repository_name_def sample_push_def sample_no_repository_def)

section \<open>Page navigation\<close>

text \<open>
  Claim C5 says that the page index always stays within \<open>[1, totalPages]\<close> and is
  clamped again when the filtered list shrinks. No handler does that: after \<open>Next\<close> on
  eleven events the index is 2, and selecting a repository with one event leaves it at 2
  while \<open>totalPages\<close> is 1. On an empty snapshot \<open>Next\<close> moves the index from 1 to 0.
\<close>

theorem page_index_counterexample:
  "currentPage (handleNextPage utc 5 (sample_state eleven_events)) = 2
   \<and> totalPages utc 5
        (setSelectedRepo ''teamB-web'' (handleNextPage utc 5 (sample_state eleven_events))) = 1
   \<and> currentPage
        (setSelectedRepo ''teamB-web'' (handleNextPage utc 5 (sample_state eleven_events))) = 2
   \<and> currentPage (handleNextPage utc 5 initial_state) = 0"
  by (simp add: handleNextPage_def setSelectedRepo_def totalPages_div filteredData_of_def
        sample_state_def initial_state_def eleven_events_def sample_push_def
        repository_name_def)

text \<open>
  Claim C5, amended: \<open>Previous\<close> never yields an index below 1 and \<open>Next\<close> never one
  above \<open>totalPages\<close>; from an index within \<open>[1, totalPages]\<close> both stay within it, and
  \<open>Next\<close> from an index at or above \<open>totalPages\<close> yields \<open>totalPages\<close>. Changing a filter
  or the snapshot leaves the index as it is. For an index above \<open>totalPages\<close> the page
  slice is empty.
\<close>

theorem page_navigation:
  "1 \<le> currentPage (handlePrevPage s)
   \<and> currentPage (handleNextPage tz now s) \<le> totalPages tz now s
   \<and> (1 \<le> currentPage s \<and> currentPage s \<le> totalPages tz now s \<longrightarrow>
        currentPage (handlePrevPage s) \<le> totalPages tz now (handlePrevPage s)
        \<and> 1 \<le> currentPage (handleNextPage tz now s)
        \<and> currentPage (handleNextPage tz now s) \<le> totalPages tz now (handleNextPage tz now s))
   \<and> (totalPages tz now s \<le> currentPage s \<longrightarrow>
        currentPage (handleNextPage tz now s) = totalPages tz now s)
   \<and> currentPage (setSelectedRepo v s) = currentPage s
   \<and> currentPage (setTimeRange v s) = currentPage s
   \<and> currentPage (setWebhookData d s) = currentPage s
   \<and> (totalPages tz now s < currentPage s \<longrightarrow> paginatedData tz now s = [])"
proof -
  have "totalPages tz now s < currentPage s \<longrightarrow> paginatedData tz now s = []"
  proof
    assume a: "totalPages tz now s < currentPage s"
    have "int (length (filteredData_of s)) \<le> totalPages tz now s * 10"
      by (simp add: totalPages_div)
    with a have "int (length (filteredData_of s)) \<le> (currentPage s - 1) * rowsPerPage"
      by (simp add: rowsPerPage_def)
    then show "paginatedData tz now s = []"
      by (simp add: paginatedData_def filteredData_processData slice_beyond)
  qed
  then show ?thesis
    by (simp add: handlePrevPage_def handleNextPage_def setSelectedRepo_def setTimeRange_def
          setWebhookData_def)
qed

theorem page_navigation_witness:
  "currentPage (handleNextPage utc 5 (sample_state eleven_events)) = 2
   \<and> currentPage (handlePrevPage (handleNextPage utc 5 (sample_state eleven_events))) = 1
   \<and> paginatedData utc 5 ((sample_state eleven_events)\<lparr>currentPage := 3\<rparr>) = []"
  using page_navigation [of "sample_state eleven_events" utc 5]
        page_navigation [of "handleNextPage utc 5 (sample_state eleven_events)" utc 5]
        page_navigation [of "(sample_state eleven_events)\<lparr>currentPage := 3\<rparr>" utc 5]
  by (simp add: handleNextPage_def handlePrevPage_def totalPages_div filteredData_of_def
        sample_state_def initial_state_def eleven_events_def)

section \<open>Missing fields\<close>

text \<open>
  Claim C6 says that no absent optional field makes the computation raise an error. An
  event of today whose \<open>repository\<close> object has no \<open>name\<close> makes \<open>teamsWorkedToday\<close>
  (and the team cell of the table) throw a TypeError, while \<open>processData\<close> resolves the
  same event to the repository label \<open>Unknown\<close>.
\<close>

theorem teamsWorkedToday_throws:
  "teamsWorkedToday utc 5 (sample_state [sample_push 3 None]) = Inl TypeError
   \<and> team_label (sample_push 3 None) = Inl TypeError
   \<and> repoName_of (sample_push 3 None) = ''Unknown''"
  by (simp add: teamsWorkedToday_def todaysEvents_def filteredData_processData
        filteredData_of_def sample_state_def initial_state_def sample_push_def
        toLocaleDateString_def setHours0_def local_day_def zone_eval msPerDay_def team_label_def
        repoName_of_def repository_name_def or_literal_def)

section \<open>Pagination bounds\<close>

text \<open>
  Claim C7 says that the length of the page slice equals
  \<open>min(pageSize, L - (currentPage - 1) * pageSize)\<close>. With five events and the page
  index 3 (an index that a shrinking list leaves behind) the slice is empty, and the
  formula gives \<open>-15\<close>.
\<close>

theorem pagination_bounds_counterexample:
  "int (length (paginatedData utc 5
          ((sample_state (replicate 5 (sample_push 3 (Some ''teamA-svc''))))
             \<lparr>currentPage := 3\<rparr>)))
     \<noteq> min rowsPerPage
         (int (length (filteredData (processData utc 5
             ((sample_state (replicate 5 (sample_push 3 (Some ''teamA-svc''))))
                \<lparr>currentPage := 3\<rparr>))))
          - (3 - 1) * rowsPerPage)"
  by (simp add: paginatedData_def filteredData_processData filteredData_of_def slice_def
        rowsPerPage_def sample_state_def initial_state_def)

text \<open>
  Claim C7, amended: for a list of length \<open>L\<close> behind the pagination, \<open>totalPages\<close> is
  \<open>ceil(L / 10)\<close>, the least number of pages of ten that hold \<open>L\<close> events, and 0 for
  \<open>L = 0\<close>. For a page index of at least 1 the length of the slice is
  \<open>max(0, min(10, L - (currentPage - 1) * 10))\<close>, which is
  \<open>min(10, L - (currentPage - 1) * 10)\<close> whenever the page starts within the list.
\<close>

theorem pagination_bounds:
  "totalPages tz now s = \<lceil>real (length (filteredData (processData tz now s))) / 10\<rceil>
   \<and> int (length (filteredData (processData tz now s))) \<le> totalPages tz now s * 10
   \<and> totalPages tz now s * 10 < int (length (filteredData (processData tz now s))) + 10
   \<and> (filteredData (processData tz now s) = [] \<longrightarrow> totalPages tz now s = 0)
   \<and> (1 \<le> currentPage s \<longrightarrow>
        int (length (paginatedData tz now s))
          = max 0 (min rowsPerPage
              (int (length (filteredData (processData tz now s)))
                 - (currentPage s - 1) * rowsPerPage)))
   \<and> (1 \<le> currentPage s
        \<and> (currentPage s - 1) * rowsPerPage
            \<le> int (length (filteredData (processData tz now s)))
      \<longrightarrow>
        int (length (paginatedData tz now s))
          = min rowsPerPage
              (int (length (filteredData (processData tz now s)))
                 - (currentPage s - 1) * rowsPerPage))"
proof -
  have "totalPages tz now s = \<lceil>real (length (filteredData (processData tz now s))) / 10\<rceil>"
    by (simp add: totalPages_def rowsPerPage_def)
  moreover have "int (length (filteredData (processData tz now s))) \<le> totalPages tz now s * 10"
    "totalPages tz now s * 10 < int (length (filteredData (processData tz now s))) + 10"
    "filteredData (processData tz now s) = [] \<longrightarrow> totalPages tz now s = 0"
    by (simp_all add: totalPages_div filteredData_processData)
  moreover have "1 \<le> currentPage s \<longrightarrow>
        int (length (paginatedData tz now s))
          = max 0 (min rowsPerPage
              (int (length (filteredData (processData tz now s)))
                 - (currentPage s - 1) * rowsPerPage))"
    using length_slice_page [of "currentPage s" "filteredData (processData tz now s)"]
    by (simp add: paginatedData_def rowsPerPage_def)
  ultimately show ?thesis by (simp add: rowsPerPage_def)
qed

theorem pagination_bounds_witness:
  "totalPages utc 5 ((sample_state eleven_events)\<lparr>currentPage := 2\<rparr>) = 2
   \<and> length (paginatedData utc 5 ((sample_state eleven_events)\<lparr>currentPage := 2\<rparr>)) = 1
   \<and> filteredData (processData utc 5 initial_state) = []
   \<and> totalPages utc 5 initial_state = 0"
  using pagination_bounds [of utc 5 "(sample_state eleven_events)\<lparr>currentPage := 2\<rparr>"]
        pagination_bounds [of utc 5 initial_state]
  by (simp add: filteredData_processData filteredData_of_def sample_state_def
        initial_state_def eleven_events_def rowsPerPage_def ceiling_tenth)

section \<open>Today's summary\<close>

text \<open>
  Claim C9: the summary of today (\<open>todaysActivity\<close> and \<open>teamsWorkedToday\<close>) does not
  depend on \<open>timeRange\<close>. Two states that differ in \<open>timeRange\<close> only give the same
  count of today's events and the same count of today's teams (or the same error).
\<close>

theorem today_summary_ignores_timeRange:
  "todaysActivity tz now (setTimeRange r1 s) = todaysActivity tz now (setTimeRange r2 s)
   \<and> teamsWorkedToday tz now (setTimeRange r1 s)
       = teamsWorkedToday tz now (setTimeRange r2 s)"
  by (simp add: todaysActivity_def teamsWorkedToday_def todaysEvents_def
        filteredData_processData filteredData_of_setTimeRange)

theorem today_summary_ignores_timeRange_witness:
  "todaysActivity utc 5 (setTimeRange ''24h'' (sample_state [sample_push 3 (Some ''teamA-svc'')]))
     = todaysActivity utc 5 (setTimeRange ''all'' (sample_state [sample_push 3 (Some ''teamA-svc'')]))
   \<and> todaysActivity utc 5 (setTimeRange ''all'' (sample_state [sample_push 3 (Some ''teamA-svc'')]))
     = 1"
  using today_summary_ignores_timeRange
          [of utc 5 "''24h''" "sample_state [sample_push 3 (Some ''teamA-svc'')]" "''all''"]
  by (simp add: todaysActivity_def todaysEvents_def filteredData_processData
        filteredData_of_def setTimeRange_def sample_state_def initial_state_def
        sample_push_def toLocaleDateString_def setHours0_def local_day_def zone_eval msPerDay_def)

end
